theory Spec2Isabelle
  imports Complex_Main
begin

section \<open>Data model of the dataset curator (notebooks/create_cidre_dset.ipynb)\<close>

text \<open>
  The notebook is a sequence of cells working on module-level variables. The
  embedding keeps the notebook's names. A Python float is the rational number
  it stands for; the arithmetic of the inclusion test and of the z-stride rounds
  every result to the nearest double, as the code's does (\<open>fl\<close> below).
  \<open>nan\<close> is the value \<open>None\<close> of an option. Every exception the cells can
  raise is a value of \<open>error\<close>.
\<close>

datatype error = IndexError | ZeroDivisionError | ValueError | ReadError

text \<open>Element types a TIFF stack can have; \<open>np.iinfo\<close> raises \<open>ValueError\<close>
  on a floating-point type.\<close>

datatype dtype = UInt8 | UInt16 | UInt32 | Float32 | Float64

fun dtype_itemsize :: "dtype \<Rightarrow> nat" where
  "dtype_itemsize UInt8 = 1"
| "dtype_itemsize UInt16 = 2"
| "dtype_itemsize UInt32 = 4"
| "dtype_itemsize Float32 = 4"
| "dtype_itemsize Float64 = 8"

fun iinfo_max :: "dtype \<Rightarrow> error + int" where
  "iinfo_max UInt8 = Inr 255"
| "iinfo_max UInt16 = Inr 65535"
| "iinfo_max UInt32 = Inr 4294967295"
| "iinfo_max Float32 = Inl ValueError"
| "iinfo_max Float64 = Inl ValueError"

text \<open>A numpy array: element type, shape, and the elements in row-major order
  (as many as the product of the shape).\<close>

record ndarray =
  dtype :: dtype
  shape :: "nat list"
  data :: "rat list"

definition ndim :: "ndarray \<Rightarrow> nat" where
  "ndim a = length (shape a)"

definition np_size :: "ndarray \<Rightarrow> nat" where
  "np_size a = prod_list (shape a)"

definition itemsize :: "ndarray \<Rightarrow> nat" where
  "itemsize a = dtype_itemsize (dtype a)"

text \<open>\<open>a[i, ...]\<close>: index on the first axis.\<close>

definition take_first :: "ndarray \<Rightarrow> nat \<Rightarrow> error + ndarray" where
  "take_first a i =
     (case shape a of
        [] \<Rightarrow> Inl IndexError
      | n # sh \<Rightarrow>
          if i < n
          then Inr (a\<lparr>shape := sh,
                       data := take (prod_list sh) (drop (i * prod_list sh) (data a))\<rparr>)
          else Inl IndexError)"

text \<open>\<open>a[..., c]\<close>: index on the last axis.\<close>

definition take_last :: "ndarray \<Rightarrow> nat \<Rightarrow> error + ndarray" where
  "take_last a c =
     (if shape a = [] then Inl IndexError
      else if c < last (shape a)
      then Inr (a\<lparr>shape := butlast (shape a),
                   data := map (\<lambda>k. data a ! (k * last (shape a) + c))
                             [0..<prod_list (butlast (shape a))]\<rparr>)
      else Inl IndexError)"

text \<open>\<open>slc[np.newaxis, ...] if ch_first else slc[..., np.newaxis]\<close>.\<close>

definition add_channel_axis :: "bool \<Rightarrow> ndarray \<Rightarrow> ndarray" where
  "add_channel_axis chf slc =
     (if chf then slc\<lparr>shape := 1 # shape slc\<rparr> else slc\<lparr>shape := shape slc @ [1]\<rparr>)"

text \<open>\<open>slc[c, :, :] if ch_first else slc[..., c]\<close>: three indices on an array
  of fewer than three axes raise \<open>IndexError\<close>.\<close>

definition select_channel :: "bool \<Rightarrow> ndarray \<Rightarrow> nat \<Rightarrow> error + ndarray" where
  "select_channel chf slc c =
     (if chf then (if ndim slc < 3 then Inl IndexError else take_first slc c)
      else take_last slc c)"

text \<open>\<open>a.shape[i]\<close>.\<close>

definition shape_at :: "ndarray \<Rightarrow> nat \<Rightarrow> error + nat" where
  "shape_at a i = (if i < length (shape a) then Inr (shape a ! i) else Inl IndexError)"

subsection \<open>Configuration cells\<close>

text \<open>A path is the list of its components. The record holds the variables
  set in the configuration cells; \<open>wv\<close> is the tuple the I/O cell works on (a
  single wavelength is wrapped into a one-element tuple there). A float of a
  cell is given by its decimal (\<open>3.4\<close> as \<open>34 / 10\<close>) or by its exact value; where
  the code computes with it, the model takes \<open>fl\<close> of it, the double the
  literal denotes.\<close>

type_synonym path = "string list"

record cfg =
  wv :: "int list"
  outdir :: path
  obj :: string
  ch_first :: bool
  bg_lvl :: rat
  bg_rel_thr :: rat
  mean_rel_thr :: rat
  max_dset_size :: rat
  z_strd_um :: rat
  px_sz_z :: rat
  x_shp_out :: "nat option"

definition ch_ax :: "cfg \<Rightarrow> nat" where
  "ch_ax cf = (if ch_first cf then 0 else 2)"

subsection \<open>Double-precision arithmetic\<close>

text \<open>
  IEEE 754 binary64, round to nearest, ties to even: \<open>fl x\<close> is the double
  nearest to the rational \<open>x\<close>, subnormal range included. A float operation of
  the code is the exact operation followed by \<open>fl\<close>. Overflow to infinity is
  not modelled: the quantities rounded here (a fraction of pixels, a mean of
  pixels, a fraction of the element type's maximum, a stride) are far below
  the largest double.

  For \<open>x = p / q\<close> in lowest terms, \<open>exponent \<bar>p\<bar> q\<close> is the \<open>e\<close> with
  \<open>2 ^ e \<le> \<bar>x\<bar> < 2 ^ (e + 1)\<close>; the spacing of the doubles around \<open>x\<close> is
  \<open>2 ^ (max e (-1022) - 52)\<close>, and \<open>x\<close> is rounded to a multiple of it.
\<close>

function bit_length :: "int \<Rightarrow> int" where
  "bit_length k = (if k \<le> 0 then 0 else 1 + bit_length (k div 2))"
  by pat_completeness auto
termination
  by (relation "measure nat") auto

declare bit_length.simps [simp del]

text \<open>\<open>shift k s\<close> is \<open>k * 2 ^ s\<close> for \<open>s \<ge> 0\<close>, and \<open>k\<close> otherwise.\<close>

definition shift :: "int \<Rightarrow> int \<Rightarrow> int" where
  "shift k s = (if 0 \<le> s then k * 2 ^ nat s else k)"

text \<open>The integer nearest to \<open>n / d\<close> (\<open>d > 0\<close>), the even one at a tie.\<close>

definition round_div :: "int \<Rightarrow> int \<Rightarrow> int" where
  "round_div n d =
     (if 2 * (n mod d) < d then n div d
      else if d < 2 * (n mod d) then n div d + 1
      else if even (n div d) then n div d else n div d + 1)"

definition exponent :: "int \<Rightarrow> int \<Rightarrow> int" where
  "exponent p q =
     (let d = bit_length p - bit_length q
      in if shift q d \<le> shift p (- d) then d else d - 1)"

definition fl_quot :: "int \<Rightarrow> int \<Rightarrow> rat" where
  "fl_quot p q =
     (let s = 52 - max (exponent \<bar>p\<bar> q) (- 1022);
          n = round_div (shift p s) (shift q (- s))
      in if 0 \<le> s then of_int n / of_int (2 ^ nat s) else of_int (n * 2 ^ nat (- s)))"

definition fl :: "rat \<Rightarrow> rat" where
  "fl x = (if x = 0 then 0 else fl_quot (fst (quotient_of x)) (snd (quotient_of x)))"

definition fadd :: "rat \<Rightarrow> rat \<Rightarrow> rat" where
  "fadd a b = fl (a + b)"

text \<open>
  The float64 sum of \<open>np.mean\<close> (\<open>np.add.reduce\<close>): numpy's pairwise summation.
  Fewer than 8 elements are added in order; up to 128 elements are added in
  eight interleaved lanes that are then combined, the remainder added in order;
  a longer array is split in two near the middle, at a multiple of 8. On
  integer pixels every order of addition gives the exact sum as long as the sum
  is below \<open>2 ^ 53\<close>, which holds for any 8- or 16-bit frame.
\<close>

definition lane :: "rat list \<Rightarrow> nat \<Rightarrow> rat" where
  "lane xs j = foldl fadd (xs ! j) (map (\<lambda>k. xs ! (8 * k + j)) [1..<length xs div 8])"

definition block_sum :: "rat list \<Rightarrow> rat" where
  "block_sum xs =
     foldl fadd
       (fadd (fadd (fadd (lane xs 0) (lane xs 1)) (fadd (lane xs 2) (lane xs 3)))
             (fadd (fadd (lane xs 4) (lane xs 5)) (fadd (lane xs 6) (lane xs 7))))
       (drop (length xs - length xs mod 8) xs)"

function pairwise_sum :: "rat list \<Rightarrow> rat" where
  "pairwise_sum xs =
     (if length xs < 8 then foldl fadd 0 xs
      else if length xs \<le> 128 then block_sum xs
      else fadd (pairwise_sum (take (length xs div 2 - length xs div 2 mod 8) xs))
                (pairwise_sum (drop (length xs div 2 - length xs div 2 mod 8) xs)))"
  by pat_completeness auto
termination
proof (relation "measure length")
  show "wf (measure length)" by simp
next
  fix xs :: "rat list"
  assume "\<not> length xs < 8" and "\<not> length xs \<le> 128"
  then show "(take (length xs div 2 - length xs div 2 mod 8) xs, xs) \<in> measure length"
    by simp
next
  fix xs :: "rat list"
  assume "\<not> length xs < 8" and "\<not> length xs \<le> 128"
  then have "64 \<le> length xs div 2" by simp
  moreover have "length xs div 2 mod 8 < 8" by simp
  ultimately have "0 < length xs div 2 - length xs div 2 mod 8" by linarith
  then show "(drop (length xs div 2 - length xs div 2 mod 8) xs, xs) \<in> measure length"
    using \<open>\<not> length xs < 8\<close> by simp
qed

declare pairwise_sum.simps [simp del]

subsection \<open>Inclusion test\<close>

text \<open>\<open>np.count_nonzero(slc > bg_lvl)\<close>, \<open>slc[slc != 0]\<close> and \<open>np.mean\<close>: the
  float64 sum divided by the count, \<open>nan\<close> on an empty array (with a warning and
  no exception). Pixels are compared with \<open>bg_lvl\<close> and with 0 exactly.\<close>

definition count_gt :: "rat \<Rightarrow> ndarray \<Rightarrow> nat" where
  "count_gt lvl slc = length (filter (\<lambda>x. lvl < x) (data slc))"

definition nonzero :: "ndarray \<Rightarrow> rat list" where
  "nonzero slc = filter (\<lambda>x. x \<noteq> 0) (data slc)"

definition np_mean :: "rat list \<Rightarrow> rat option" where
  "np_mean xs =
     (if xs = [] then None else Some (fl (pairwise_sum xs / of_nat (length xs))))"

text \<open>\<open>m > y\<close> on doubles: false when \<open>m\<close> is \<open>nan\<close>.\<close>

definition float_gt :: "rat option \<Rightarrow> rat \<Rightarrow> bool" where
  "float_gt m y = (case m of None \<Rightarrow> False | Some x \<Rightarrow> y < x)"

text \<open>
  \<^verbatim>\<open>np.count_nonzero(slc > bg_lvl) / np.size(slc) > bg_rel_thr
      and np.mean(slc[slc != 0]) > mean_rel_thr * img_max\<close>
  The quotient is a division of Python ints: it raises on an array of size 0
  and gives the double nearest to the fraction. The product is a float
  multiplication (\<open>img_max\<close> is a Python int below \<open>2 ^ 53\<close>). The thresholds are
  the doubles of the configuration. \<open>and\<close> evaluates its right operand only
  when the left one holds.
\<close>

definition inclusion_test :: "cfg \<Rightarrow> int \<Rightarrow> ndarray \<Rightarrow> error + bool" where
  "inclusion_test cf img_max slc =
     (if np_size slc = 0 then Inl ZeroDivisionError
      else if fl (bg_rel_thr cf) < fl (of_nat (count_gt (bg_lvl cf) slc) / of_nat (np_size slc))
      then Inr (float_gt (np_mean (nonzero slc)) (fl (fl (mean_rel_thr cf) * of_int img_max)))
      else Inr False)"

subsection \<open>Strings and paths\<close>

text \<open>\<open>str(n)\<close> for a Python int: decimal digits, a minus sign when negative.\<close>

definition digit_char :: "nat \<Rightarrow> char" where
  "digit_char d = ''0123456789'' ! d"

fun str_nat :: "nat \<Rightarrow> string" where
  "str_nat n = (if n < 10 then [digit_char n] else str_nat (n div 10) @ [digit_char (n mod 10)])"

declare str_nat.simps [simp del]

definition str_int :: "int \<Rightarrow> string" where
  "str_int i = (if i < 0 then CHR ''-'' # str_nat (nat (- i)) else str_nat (nat i))"

text \<open>\<open>Path.suffix\<close> (Python 3.12): the part of the name from its last dot,
  empty when the name has no dot, starts with its only dot or ends with a dot.\<close>

fun rfind :: "char \<Rightarrow> string \<Rightarrow> nat option" where
  "rfind c [] = None"
| "rfind c (x # xs) =
     (case rfind c xs of
        Some i \<Rightarrow> Some (Suc i)
      | None \<Rightarrow> if x = c then Some 0 else None)"

definition suffix :: "string \<Rightarrow> string" where
  "suffix name =
     (case rfind CHR ''.'' name of
        None \<Rightarrow> []
      | Some i \<Rightarrow> if 0 < i \<and> i + 1 < length name then drop i name else [])"

text \<open>\<open>str.lower\<close> on ASCII letters.\<close>

definition lower_char :: "char \<Rightarrow> char" where
  "lower_char c =
     (case map_of (zip ''ABCDEFGHIJKLMNOPQRSTUVWXYZ'' ''abcdefghijklmnopqrstuvwxyz'') c of
        None \<Rightarrow> c
      | Some l \<Rightarrow> l)"

definition lower :: "string \<Rightarrow> string" where
  "lower s = map lower_char s"

subsection \<open>Cell: evaluate I/O directory content\<close>

text \<open>
  The file system as the cell sees it: the directories that exist, each with
  the names of its entries. \<open>mkdir\<close> adds an empty directory.
  \<^verbatim>\<open>
  num_slc = np.zeros((len(wv),), dtype=int)
  wavedirs = []
  for c, w in enumerate(wv):
      if w != -1:
          wavedir = outdir / f'{obj}_{w}nm'
          if not (wavedir).is_dir():
              wavedir.mkdir(parents=True, exist_ok=True)
          else:
              num_slc[c] = sum(1 for file in wavedir.iterdir()
                               if file.suffix.lower() in ['.tif', '.tiff'])
          wavedirs.append(wavedir)
  \<close>
\<close>

type_synonym filesystem = "path \<Rightarrow> string list option"

definition wavedir_of :: "cfg \<Rightarrow> int \<Rightarrow> path" where
  "wavedir_of cf w = outdir cf @ [obj cf @ ''_'' @ str_int w @ ''nm'']"

definition tif_count :: "string list \<Rightarrow> nat" where
  "tif_count names = length (filter (\<lambda>nm. lower (suffix nm) \<in> set [''.tif'', ''.tiff'']) names)"

fun io_loop :: "cfg \<Rightarrow> (nat \<times> int) list \<Rightarrow> nat list \<times> path list \<times> filesystem
                 \<Rightarrow> nat list \<times> path list \<times> filesystem" where
  "io_loop cf [] acc = acc"
| "io_loop cf ((c, w) # cws) (nslc, wavedirs, fs) =
     (if w \<noteq> - 1 then
        (case fs (wavedir_of cf w) of
           None \<Rightarrow>
             io_loop cf cws (nslc, wavedirs @ [wavedir_of cf w], fs(wavedir_of cf w \<mapsto> []))
         | Some names \<Rightarrow>
             io_loop cf cws (nslc[c := tif_count names], wavedirs @ [wavedir_of cf w], fs))
      else io_loop cf cws (nslc, wavedirs, fs))"

definition io_cell :: "cfg \<Rightarrow> filesystem \<Rightarrow> nat list \<times> path list \<times> filesystem" where
  "io_cell cf fs = io_loop cf (enumerate 0 (wv cf)) (replicate (length (wv cf)) 0, [], fs)"

subsection \<open>Cell: export 2D frames\<close>

text \<open>
  \<open>skimage.transform.resize\<close> is a library function, a parameter of the model:
  \<open>rsz slc [h, w]\<close> stands for
  \<open>resize(slc, output_shape=(h, w), anti_aliasing=True, preserve_range=True)\<close>.
  The library calls \<open>resize\<close>, \<open>imwrite\<close> and \<open>mkdir\<close> are taken to return
  normally; the exceptions modelled are those of the notebook's own indexing and
  arithmetic, and of \<open>imread\<close>.
\<close>

type_synonym resize_fn = "ndarray \<Rightarrow> nat list \<Rightarrow> ndarray"

text \<open>A call of \<open>tiff.imwrite(path, image, compression=...)\<close>.\<close>

record written =
  wpath :: path
  wimage :: ndarray
  wcompression :: string

text \<open>The variables the export loop mutates, and the files it has written, in
  order.\<close>

record curator =
  num_slc :: "nat list"
  ds_size :: "rat list"
  files :: "written list"

text \<open>
  The body of the inclusion branch:
  \<^verbatim>\<open>
  if x_shp_out is not None:
      slc = resize(slc, output_shape=(slc.shape[0], x_shp_out),
                   anti_aliasing=True, preserve_range=True)
  tiff.imwrite(wavedirs[c] / f'{num_slc[c]}.tiff', slc, compression='zlib')
  ds_size[c] += slc.itemsize * slc.size
  num_slc[c] += 1
  \<close>
  The result is the exception raised (if any), the local \<open>slc\<close> and the state
  at that point.
\<close>

definition force_shape :: "cfg \<Rightarrow> resize_fn \<Rightarrow> ndarray \<Rightarrow> error + ndarray" where
  "force_shape cf rsz slc =
     (case x_shp_out cf of
        None \<Rightarrow> Inr slc
      | Some w \<Rightarrow> (case shape_at slc 0 of Inl e \<Rightarrow> Inl e | Inr h \<Rightarrow> Inr (rsz slc [h, w])))"

definition imwrite :: "path list \<Rightarrow> nat \<Rightarrow> ndarray \<Rightarrow> curator \<Rightarrow> curator" where
  "imwrite wavedirs c slc st =
     st\<lparr>files := files st @
        [\<lparr>wpath = wavedirs ! c @ [str_nat (num_slc st ! c) @ ''.tiff''],
          wimage = slc, wcompression = ''zlib''\<rparr>]\<rparr>"

definition save_slice ::
  "cfg \<Rightarrow> path list \<Rightarrow> resize_fn \<Rightarrow> nat \<Rightarrow> ndarray \<Rightarrow> curator
     \<Rightarrow> error option \<times> ndarray \<times> curator" where
  "save_slice cf wavedirs rsz c slc st =
     (case force_shape cf rsz slc of
        Inl e \<Rightarrow> (Some e, slc, st)
      | Inr slc' \<Rightarrow>
          if \<not> c < length wavedirs \<or> \<not> c < length (num_slc st) then (Some IndexError, slc', st)
          else if \<not> c < length (ds_size st) then (Some IndexError, slc', imwrite wavedirs c slc' st)
          else (None, slc',
                (imwrite wavedirs c slc' st)
                  \<lparr>ds_size := (ds_size st)[c := ds_size st ! c + of_nat (itemsize slc' * np_size slc')],
                   num_slc := (num_slc st)[c := num_slc st ! c + 1]\<rparr>))"

text \<open>\<open>np.all(ds_size) >= max_dset_size\<close>: \<open>np.all\<close> of a float array is the
  boolean "every entry is nonzero", which the comparison reads as 1 or 0.\<close>

definition max_size_reached :: "cfg \<Rightarrow> curator \<Rightarrow> bool" where
  "max_size_reached cf st =
     (max_dset_size cf \<le> (if list_all (\<lambda>x. x \<noteq> 0) (ds_size st) then 1 else 0))"

text \<open>
  The channel loop, over the indices fixed when the loop starts; the local
  \<open>slc\<close> is reassigned inside it.
  \<^verbatim>\<open>
  for c in range(slc.shape[ch_ax]):
      if wv[c] > 0:
          slc = slc[c, :, :] if ch_first else slc[..., c]
          if <inclusion test>:
              <save>
          if np.all(ds_size) >= max_dset_size:
              break
  \<close>
\<close>

fun chan_loop ::
  "cfg \<Rightarrow> path list \<Rightarrow> resize_fn \<Rightarrow> int \<Rightarrow> nat list \<Rightarrow> ndarray \<Rightarrow> curator
     \<Rightarrow> error option \<times> curator" where
  "chan_loop cf wavedirs rsz img_max [] slc st = (None, st)"
| "chan_loop cf wavedirs rsz img_max (c # cs) slc st =
     (if \<not> c < length (wv cf) then (Some IndexError, st)
      else if 0 < wv cf ! c then
        (case select_channel (ch_first cf) slc c of
           Inl e \<Rightarrow> (Some e, st)
         | Inr slc1 \<Rightarrow>
             (case inclusion_test cf img_max slc1 of
                Inl e \<Rightarrow> (Some e, st)
              | Inr ok \<Rightarrow>
                  (case (if ok then save_slice cf wavedirs rsz c slc1 st else (None, slc1, st)) of
                     (Some e, slc2, st2) \<Rightarrow> (Some e, st2)
                   | (None, slc2, st2) \<Rightarrow>
                       if max_size_reached cf st2 then (None, st2)
                       else chan_loop cf wavedirs rsz img_max cs slc2 st2)))
      else chan_loop cf wavedirs rsz img_max cs slc st)"

text \<open>
  The loop over z-slices of one stack.
  \<^verbatim>\<open>
  for z in range(0, img.shape[0], z_strd):
      slc = img[z, ...]
      if slc.ndim == 2:
          slc = slc[np.newaxis, ...] if ch_first else slc[..., np.newaxis]
      for c in range(slc.shape[ch_ax]): ...
  \<close>
\<close>

fun z_loop ::
  "cfg \<Rightarrow> path list \<Rightarrow> resize_fn \<Rightarrow> int \<Rightarrow> ndarray \<Rightarrow> nat list \<Rightarrow> curator
     \<Rightarrow> error option \<times> curator" where
  "z_loop cf wavedirs rsz img_max img [] st = (None, st)"
| "z_loop cf wavedirs rsz img_max img (z # zs) st =
     (case take_first img z of
        Inl e \<Rightarrow> (Some e, st)
      | Inr slc0 \<Rightarrow>
          (case shape_at (if ndim slc0 = 2 then add_channel_axis (ch_first cf) slc0 else slc0)
                  (ch_ax cf) of
             Inl e \<Rightarrow> (Some e, st)
           | Inr n \<Rightarrow>
               (case chan_loop cf wavedirs rsz img_max [0..<n]
                       (if ndim slc0 = 2 then add_channel_axis (ch_first cf) slc0 else slc0) st of
                  (Some e, st') \<Rightarrow> (Some e, st')
                | (None, st') \<Rightarrow> z_loop cf wavedirs rsz img_max img zs st')))"

text \<open>\<open>range(0, n, step)\<close>.\<close>

definition py_range :: "nat \<Rightarrow> int \<Rightarrow> error + nat list" where
  "py_range n step =
     (if step = 0 then Inl ValueError
      else if step < 0 then Inr []
      else Inr (map (\<lambda>k. k * nat step) [0..<(n + nat step - 1) div nat step]))"

text \<open>
  The loop over the stacks. An element of \<open>stack_lst\<close> is what \<open>tiff.imread\<close>
  gives for that path: the array, or the exception it raises on a file it
  cannot read. The loop has no handler.
  \<^verbatim>\<open>
  for f in stack_lst:
      img = tiff.imread(f)
      img_max = np.iinfo(img.dtype).max
      for z in range(0, img.shape[0], z_strd): ...
  \<close>
\<close>

fun stack_loop ::
  "cfg \<Rightarrow> path list \<Rightarrow> resize_fn \<Rightarrow> int \<Rightarrow> (error + ndarray) list \<Rightarrow> curator
     \<Rightarrow> error option \<times> curator" where
  "stack_loop cf wavedirs rsz z_strd [] st = (None, st)"
| "stack_loop cf wavedirs rsz z_strd (f # fs) st =
     (case f of
        Inl e \<Rightarrow> (Some e, st)
      | Inr img \<Rightarrow>
          (case iinfo_max (dtype img) of
             Inl e \<Rightarrow> (Some e, st)
           | Inr img_max \<Rightarrow>
               (case shape_at img 0 of
                  Inl e \<Rightarrow> (Some e, st)
                | Inr n \<Rightarrow>
                    (case py_range n z_strd of
                       Inl e \<Rightarrow> (Some e, st)
                     | Inr zs \<Rightarrow>
                         (case z_loop cf wavedirs rsz img_max img zs st of
                            (Some e, st') \<Rightarrow> (Some e, st')
                          | (None, st') \<Rightarrow> stack_loop cf wavedirs rsz z_strd fs st')))))"

text \<open>
  The export cell: \<open>ds_size\<close> starts at zero, \<open>num_slc\<close> is the one the I/O
  cell left, \<open>z_strd = ceil(z_strd_um / px_sz_z)\<close>: the ceiling of the double
  quotient (\<open>2.1 / 0.7\<close> is the double above 3, and the stride 4).
\<close>

definition export_cell ::
  "cfg \<Rightarrow> path list \<Rightarrow> resize_fn \<Rightarrow> (error + ndarray) list \<Rightarrow> nat list
     \<Rightarrow> error option \<times> curator" where
  "export_cell cf wavedirs rsz stack_lst nslc =
     (if fl (px_sz_z cf) = 0
      then (Some ZeroDivisionError,
            \<lparr>num_slc = nslc, ds_size = replicate (length (wv cf)) 0, files = []\<rparr>)
      else stack_loop cf wavedirs rsz \<lceil>fl (fl (z_strd_um cf) / fl (px_sz_z cf))\<rceil> stack_lst
             \<lparr>num_slc = nslc, ds_size = replicate (length (wv cf)) 0, files = []\<rparr>)"

subsection \<open>Sample inputs\<close>

text \<open>The configuration cells as committed (one wavelength, channel first,
  \<open>z_strd = ceil(17 / 3.4) = 5\<close>), with no forced output width.\<close>

definition sample_cfg :: cfg where
  "sample_cfg =
     \<lparr>wv = [638], outdir = [''mic_dset''], obj = ''qspim_dskwd'', ch_first = True,
      bg_lvl = 500, bg_rel_thr = 333 / 1000, mean_rel_thr = 5 / 1000,
      max_dset_size = 100000000000, z_strd_um = 17, px_sz_z = 34 / 10, x_shp_out = None\<rparr>"

text \<open>A stand-in for \<open>skimage.transform.resize\<close> on sample inputs: the
  result has the requested shape and float64 elements (what the library returns
  for an integer image with \<open>preserve_range=True\<close>); the values are resampled to
  the nearest neighbour along the last axis, so an unchanged shape keeps them.\<close>

definition resize_nearest :: resize_fn where
  "resize_nearest a sh =
     \<lparr>dtype = Float64, shape = sh,
      data = map (\<lambda>k. data a ! ((k div last sh) * last (shape a)
                                 + ((k mod last sh) * last (shape a)) div last sh))
               [0..<prod_list sh]\<rparr>"

text \<open>Stacks of 16-bit frames of one row and two columns: three z-slices
  without a channel axis (the middle one empty of signal); three bright
  z-slices; one z-slice of two channels, channel first \<open>(Z, C, Y, X)\<close> and channel
  last \<open>(Z, Y, X, C)\<close>.\<close>

definition stack_gap :: ndarray where
  "stack_gap = \<lparr>dtype = UInt16, shape = [3, 1, 2], data = [600, 700, 0, 0, 900, 100]\<rparr>"

definition stack_bright :: ndarray where
  "stack_bright =
     \<lparr>dtype = UInt16, shape = [3, 1, 2], data = [600, 700, 800, 900, 1000, 1100]\<rparr>"

definition stack_2ch_first :: ndarray where
  "stack_2ch_first = \<lparr>dtype = UInt16, shape = [1, 2, 1, 2], data = [600, 700, 800, 900]\<rparr>"

definition stack_2ch_last :: ndarray where
  "stack_2ch_last = \<lparr>dtype = UInt16, shape = [1, 1, 2, 2], data = [600, 700, 800, 900]\<rparr>"

section \<open>Illumination corrector\<close>

text \<open>Modelled from the spec: the corrector (the \<open>mic\<close> package applied by the
  command line tool) is not among the source files, only the notebooks and the
  documentation are. The global scale factor \<open>s\<close> is the mean of the flat-field
  \<open>v\<close> over the field.\<close>

definition field_mean :: "rat list \<Rightarrow> rat" where
  "field_mean v = sum_list v / of_nat (length v)"

text \<open>Modelled from the spec: Zero-Light-Preserved mode, per pixel \<open>x\<close> with
  flat-field value \<open>v\<close>, dark-field value \<open>z\<close> and scale \<open>s\<close>:
  \<open>corrected = (x - z) * (s / v)\<close>.\<close>

definition zero_light_preserved :: "rat \<Rightarrow> rat \<Rightarrow> rat \<Rightarrow> rat \<Rightarrow> rat" where
  "zero_light_preserved s x v z = (x - z) * (s / v)"

text \<open>Modelled from the spec: the correction applied element-wise to a frame
  \<open>xs\<close> with a model \<open>(vs, zs)\<close> of the same shape (all three in row-major
  order).\<close>

definition correct_zlp :: "rat list \<Rightarrow> rat list \<Rightarrow> rat list \<Rightarrow> rat list" where
  "correct_zlp xs vs zs =
     map (\<lambda>(x, v, z). zero_light_preserved (field_mean vs) x v z) (zip xs (zip vs zs))"

section \<open>Lemmas about the cells\<close>

subsection \<open>The inclusion branch\<close>




lemma force_shape_2d:
  "length (shape slc) = 2 \<Longrightarrow>
   force_shape cf rsz slc =
     Inr (case x_shp_out cf of None \<Rightarrow> slc | Some w \<Rightarrow> rsz slc [shape slc ! 0, w])"
  by (simp add: force_shape_def shape_at_def split: option.splits)

lemma save_slice_ok:
  assumes "force_shape cf rsz slc = Inr slc'"
    and "c < length wavedirs" and "c < length (num_slc st)" and "c < length (ds_size st)"
  shows "save_slice cf wavedirs rsz c slc st =
     (None, slc',
      \<lparr>num_slc = (num_slc st)[c := num_slc st ! c + 1],
       ds_size = (ds_size st)[c := ds_size st ! c + of_nat (itemsize slc' * np_size slc')],
       files = files st @
         [\<lparr>wpath = wavedirs ! c @ [str_nat (num_slc st ! c) @ ''.tiff''],
           wimage = slc', wcompression = ''zlib''\<rparr>]\<rparr>)"
  using assms by (simp add: save_slice_def imwrite_def)

lemma save_slice_cases:
  obtains (raised) e slc' where "save_slice cf wavedirs rsz c slc st = (Some e, slc', st)"
  | (partial) slc' where "\<not> c < length (ds_size st)"
      "save_slice cf wavedirs rsz c slc st = (Some IndexError, slc', imwrite wavedirs c slc' st)"
  | (saved) slc' where "c < length wavedirs" "c < length (num_slc st)" "c < length (ds_size st)"
      "force_shape cf rsz slc = Inr slc'"
      "save_slice cf wavedirs rsz c slc st =
         (None, slc',
          \<lparr>num_slc = (num_slc st)[c := num_slc st ! c + 1],
           ds_size = (ds_size st)[c := ds_size st ! c + of_nat (itemsize slc' * np_size slc')],
           files = files st @
             [\<lparr>wpath = wavedirs ! c @ [str_nat (num_slc st ! c) @ ''.tiff''],
               wimage = slc', wcompression = ''zlib''\<rparr>]\<rparr>)"
proof (cases "force_shape cf rsz slc")
  case (Inl e)
  then have "save_slice cf wavedirs rsz c slc st = (Some e, slc, st)"
    by (simp add: save_slice_def)
  then show ?thesis by (rule raised)
next
  case (Inr slc')
  show ?thesis
  proof (cases "c < length wavedirs \<and> c < length (num_slc st)")
    case False
    with Inr have "save_slice cf wavedirs rsz c slc st = (Some IndexError, slc', st)"
      by (auto simp add: save_slice_def)
    then show ?thesis by (rule raised)
  next
    case True
    show ?thesis
    proof (cases "c < length (ds_size st)")
      case False
      with True Inr
      have "save_slice cf wavedirs rsz c slc st
              = (Some IndexError, slc', imwrite wavedirs c slc' st)"
        by (simp add: save_slice_def)
      with False show ?thesis by (rule partial)
    next
      case c: True
      with True Inr
      have "save_slice cf wavedirs rsz c slc st =
         (None, slc',
          \<lparr>num_slc = (num_slc st)[c := num_slc st ! c + 1],
           ds_size = (ds_size st)[c := ds_size st ! c + of_nat (itemsize slc' * np_size slc')],
           files = files st @
             [\<lparr>wpath = wavedirs ! c @ [str_nat (num_slc st ! c) @ ''.tiff''],
               wimage = slc', wcompression = ''zlib''\<rparr>]\<rparr>)"
        by (simp add: save_slice_def imwrite_def)
      with True c Inr show ?thesis using saved [of slc'] by simp
    qed
  qed
qed

lemma save_slice_frame:
  assumes "k \<noteq> c"
  shows "num_slc (snd (snd (save_slice cf wavedirs rsz c slc st))) ! k = num_slc st ! k
       \<and> ds_size (snd (snd (save_slice cf wavedirs rsz c slc st))) ! k = ds_size st ! k"
  using assms
  by (cases rule: save_slice_cases [of cf wavedirs rsz c slc st]) (simp_all add: imwrite_def)

lemma save_slice_lengths:
  "length (num_slc (snd (snd (save_slice cf wavedirs rsz c slc st)))) = length (num_slc st)
   \<and> length (ds_size (snd (snd (save_slice cf wavedirs rsz c slc st)))) = length (ds_size st)"
  by (cases rule: save_slice_cases [of cf wavedirs rsz c slc st]) (simp_all add: imwrite_def)

lemma save_slice_mono:
  "num_slc st ! k \<le> num_slc (snd (snd (save_slice cf wavedirs rsz c slc st))) ! k"
  by (cases rule: save_slice_cases [of cf wavedirs rsz c slc st])
     (simp_all add: imwrite_def nth_list_update)

lemma sum_list_incr:
  fixes xs :: "nat list"
  shows "c < length xs \<Longrightarrow> sum_list (xs[c := Suc (xs ! c)]) = Suc (sum_list xs)"
  by (simp add: sum_list_update)

lemma save_slice_count:
  assumes "c < length (ds_size st)"
  shows "sum_list (num_slc (snd (snd (save_slice cf wavedirs rsz c slc st))))
           + length (files st)
         = sum_list (num_slc st) + length (files (snd (snd (save_slice cf wavedirs rsz c slc st))))"
  using assms
  by (cases rule: save_slice_cases [of cf wavedirs rsz c slc st])
     (simp_all add: imwrite_def sum_list_incr)

subsection \<open>Invariants of the export loops\<close>

text \<open>A property of the state that every save at a channel of positive
  wavelength keeps is kept by each loop, whether the loop ends or raises.\<close>

lemma chan_loop_inv:
  assumes step: "\<And>c slc st. c < length (wv cf) \<Longrightarrow> 0 < wv cf ! c \<Longrightarrow> P st
                   \<Longrightarrow> P (snd (snd (save_slice cf wavedirs rsz c slc st)))"
    and "P st"
  shows "P (snd (chan_loop cf wavedirs rsz img_max cs slc st))"
  using \<open>P st\<close>
proof (induction cs arbitrary: slc st)
  case Nil
  then show ?case by simp
next
  case (Cons c cs)
  show ?case
  proof (cases "c < length (wv cf) \<and> 0 < wv cf ! c")
    case False
    with Cons show ?thesis by auto
  next
    case True
    show ?thesis
    proof (cases "select_channel (ch_first cf) slc c")
      case (Inl e)
      with True Cons.prems show ?thesis by simp
    next
      case (Inr slc1)
      note sel = this
      show ?thesis
      proof (cases "inclusion_test cf img_max slc1")
        case (Inl e)
        with True sel Cons.prems show ?thesis by simp
      next
        case (Inr ok)
        show ?thesis
        proof (cases ok)
          case False
          with True sel Inr Cons show ?thesis by simp
        next
          case ok: True
          obtain e slc2 st2 where sv: "save_slice cf wavedirs rsz c slc1 st = (e, slc2, st2)"
            by (cases "save_slice cf wavedirs rsz c slc1 st") auto
          from step [of c st slc1] True Cons.prems sv have "P st2" by simp
          with True sel Inr ok sv Cons.IH [of st2 slc2] show ?thesis
            by (cases e) simp_all
        qed
      qed
    qed
  qed
qed

lemma z_loop_inv:
  assumes step: "\<And>c slc st. c < length (wv cf) \<Longrightarrow> 0 < wv cf ! c \<Longrightarrow> P st
                   \<Longrightarrow> P (snd (snd (save_slice cf wavedirs rsz c slc st)))"
    and "P st"
  shows "P (snd (z_loop cf wavedirs rsz img_max img zs st))"
  using \<open>P st\<close>
proof (induction zs arbitrary: st)
  case Nil
  then show ?case by simp
next
  case (Cons z zs)
  show ?case
  proof (cases "take_first img z")
    case (Inl e)
    with Cons.prems show ?thesis by simp
  next
    case (Inr slc0)
    define slc where "slc = (if ndim slc0 = 2 then add_channel_axis (ch_first cf) slc0 else slc0)"
    show ?thesis
    proof (cases "shape_at slc (ch_ax cf)")
      case (Inl e)
      with Inr Cons.prems show ?thesis by (simp add: slc_def)
    next
      case n: (Inr n)
      obtain e st' where cl: "chan_loop cf wavedirs rsz img_max [0..<n] slc st = (e, st')"
        by (cases "chan_loop cf wavedirs rsz img_max [0..<n] slc st") auto
      from chan_loop_inv [of cf P wavedirs rsz st img_max "[0..<n]" slc] step Cons.prems cl
      have "P st'" by simp
      with Inr n cl Cons.IH [of st'] show ?thesis
        by (cases e) (simp_all add: slc_def)
    qed
  qed
qed

lemma stack_loop_inv:
  assumes step: "\<And>c slc st. c < length (wv cf) \<Longrightarrow> 0 < wv cf ! c \<Longrightarrow> P st
                   \<Longrightarrow> P (snd (snd (save_slice cf wavedirs rsz c slc st)))"
    and "P st"
  shows "P (snd (stack_loop cf wavedirs rsz z_strd fs st))"
  using \<open>P st\<close>
proof (induction fs arbitrary: st)
  case Nil
  then show ?case by simp
next
  case (Cons f fs)
  show ?case
  proof (cases f)
    case (Inl e)
    with Cons.prems show ?thesis by simp
  next
    case (Inr img)
    show ?thesis
    proof (cases "iinfo_max (dtype img)")
      case (Inl e)
      with Inr Cons.prems show ?thesis by simp
    next
      case m: (Inr img_max)
      show ?thesis
      proof (cases "shape_at img 0")
        case (Inl e)
        with Inr m Cons.prems show ?thesis by simp
      next
        case n: (Inr n)
        show ?thesis
        proof (cases "py_range n z_strd")
          case (Inl e)
          with Inr m n Cons.prems show ?thesis by simp
        next
          case zs: (Inr zs)
          obtain e st' where zl: "z_loop cf wavedirs rsz img_max img zs st = (e, st')"
            by (cases "z_loop cf wavedirs rsz img_max img zs st") auto
          from z_loop_inv [of cf P wavedirs rsz st img_max img zs] step Cons.prems zl
          have "P st'" by simp
          with Inr m n zs zl Cons.IH [of st'] show ?thesis
            by (cases e) simp_all
        qed
      qed
    qed
  qed
qed

lemma export_cell_inv:
  assumes step: "\<And>c slc st. c < length (wv cf) \<Longrightarrow> 0 < wv cf ! c \<Longrightarrow> P st
                   \<Longrightarrow> P (snd (snd (save_slice cf wavedirs rsz c slc st)))"
    and "P \<lparr>num_slc = nslc, ds_size = replicate (length (wv cf)) 0, files = []\<rparr>"
  shows "P (snd (export_cell cf wavedirs rsz stack_lst nslc))"
  using assms(2) stack_loop_inv [of cf P wavedirs rsz, OF step]
  by (simp add: export_cell_def)

lemma stack_loop_append:
  "stack_loop cf wavedirs rsz z_strd (pre @ post) st =
     (case stack_loop cf wavedirs rsz z_strd pre st of
        (Some e, st') \<Rightarrow> (Some e, st')
      | (None, st') \<Rightarrow> stack_loop cf wavedirs rsz z_strd post st')"
proof (induction pre arbitrary: st)
  case Nil
  then show ?case by simp
next
  case (Cons f pre)
  then show ?case
    by (simp split: sum.splits prod.splits option.splits)
qed

lemma max_size_never_reached:
  "1 < max_dset_size cf \<Longrightarrow> \<not> max_size_reached cf st"
  by (simp add: max_size_reached_def)

subsection \<open>The I/O cell\<close>

lemma io_loop_wavedirs:
  "fst (snd (io_loop cf (enumerate k ws) (nslc, wd, fs)))
     = wd @ map (wavedir_of cf) (filter (\<lambda>w. w \<noteq> - 1) ws)"
  by (induction ws arbitrary: k nslc wd fs) (simp_all split: option.splits)

lemma io_loop_counts:
  assumes "\<And>j. k \<le> j \<Longrightarrow> j < length nslc \<Longrightarrow> nslc ! j = 0"
    and "j < length nslc"
  shows "fst (io_loop cf (enumerate k ws) (nslc, wd, fs)) ! j =
           (if k \<le> j \<and> j < k + length ws \<and> ws ! (j - k) \<noteq> - 1
            then (case fs (wavedir_of cf (ws ! (j - k))) of
                    None \<Rightarrow> 0 | Some names \<Rightarrow> tif_count names)
            else nslc ! j)"
  using assms
proof (induction ws arbitrary: k nslc wd fs)
  case Nil
  then show ?case by simp
next
  case (Cons w ws)
  have later: "ws ! (j - Suc k) = (w # ws) ! (j - k)" if "Suc k \<le> j"
    using that by (simp add: Suc_diff_le)
  show ?case
  proof (cases "w = - 1")
    case True
    have "fst (io_loop cf (enumerate (Suc k) ws) (nslc, wd, fs)) ! j =
           (if Suc k \<le> j \<and> j < Suc k + length ws \<and> ws ! (j - Suc k) \<noteq> - 1
            then (case fs (wavedir_of cf (ws ! (j - Suc k))) of
                    None \<Rightarrow> 0 | Some names \<Rightarrow> tif_count names)
            else nslc ! j)"
      using Cons.prems by (intro Cons.IH) simp_all
    with True later show ?thesis
      by (cases "j = k") (auto simp add: not_less_eq_eq)
  next
    case False
    show ?thesis
    proof (cases "fs (wavedir_of cf w)")
      case None
      have "fst (io_loop cf (enumerate (Suc k) ws)
                   (nslc, wd @ [wavedir_of cf w], fs(wavedir_of cf w \<mapsto> []))) ! j =
           (if Suc k \<le> j \<and> j < Suc k + length ws \<and> ws ! (j - Suc k) \<noteq> - 1
            then (case (fs(wavedir_of cf w \<mapsto> [])) (wavedir_of cf (ws ! (j - Suc k))) of
                    None \<Rightarrow> 0 | Some names \<Rightarrow> tif_count names)
            else nslc ! j)"
        using Cons.prems by (intro Cons.IH) simp_all
      with False None later Cons.prems(1) [of k] Cons.prems(2) show ?thesis
        by (cases "j = k") (auto simp add: not_less_eq_eq tif_count_def)
    next
      case (Some names)
      have "fst (io_loop cf (enumerate (Suc k) ws)
                   (nslc[k := tif_count names], wd @ [wavedir_of cf w], fs)) ! j =
           (if Suc k \<le> j \<and> j < Suc k + length (ws) \<and> ws ! (j - Suc k) \<noteq> - 1
            then (case fs (wavedir_of cf (ws ! (j - Suc k))) of
                    None \<Rightarrow> 0 | Some names \<Rightarrow> tif_count names)
            else nslc[k := tif_count names] ! j)"
        using Cons.prems by (intro Cons.IH) simp_all
      with False Some later Cons.prems(2) show ?thesis
        by (cases "j = k") (auto simp add: not_less_eq_eq)
    qed
  qed
qed

lemma io_cell_counts:
  assumes "io_cell cf fs = (nslc, wavedirs, fs')" and "c < length (wv cf)" and "wv cf ! c \<noteq> - 1"
  shows "nslc ! c = (case fs (wavedir_of cf (wv cf ! c)) of
                       None \<Rightarrow> 0 | Some names \<Rightarrow> tif_count names)"
proof -
  have "fst (io_loop cf (enumerate 0 (wv cf)) (replicate (length (wv cf)) 0, [], fs)) ! c =
           (if 0 \<le> c \<and> c < 0 + length (wv cf) \<and> wv cf ! (c - 0) \<noteq> - 1
            then (case fs (wavedir_of cf (wv cf ! (c - 0))) of
                    None \<Rightarrow> 0 | Some names \<Rightarrow> tif_count names)
            else replicate (length (wv cf)) 0 ! c)"
    using assms(2) by (intro io_loop_counts) simp_all
  with assms show ?thesis by (simp add: io_cell_def)
qed

lemma io_cell_wavedirs:
  assumes "io_cell cf fs = (nslc, wavedirs, fs')"
  shows "wavedirs = map (wavedir_of cf) (filter (\<lambda>w. w \<noteq> - 1) (wv cf))"
  using assms io_loop_wavedirs [of cf 0 "wv cf" "replicate (length (wv cf)) 0" "[]" fs]
  by (simp add: io_cell_def)

lemma filter_take_all:
  "\<forall>k \<le> c. ws ! k \<noteq> x \<Longrightarrow> c < length ws \<Longrightarrow> filter (\<lambda>w. w \<noteq> x) ws ! c = ws ! c"
proof (induction ws arbitrary: c)
  case Nil
  then show ?case by simp
next
  case (Cons w ws)
  show ?case
  proof (cases c)
    case 0
    with Cons.prems show ?thesis by auto
  next
    case (Suc c')
    from Cons.prems have "w \<noteq> x" by auto
    moreover from Cons.prems Suc have "\<forall>k \<le> c'. ws ! k \<noteq> x" by auto
    moreover from Cons.prems Suc have "c' < length ws" by simp
    ultimately show ?thesis using Suc Cons.IH [of c'] by simp
  qed
qed

lemma filter_take_all_length:
  "\<forall>k \<le> c. ws ! k \<noteq> x \<Longrightarrow> c < length ws \<Longrightarrow> c < length (filter (\<lambda>w. w \<noteq> x) ws)"
proof (induction ws arbitrary: c)
  case Nil
  then show ?case by simp
next
  case (Cons w ws)
  show ?case
  proof (cases c)
    case 0
    with Cons.prems show ?thesis by auto
  next
    case (Suc c')
    from Cons.prems have "w \<noteq> x" by auto
    moreover from Cons.prems Suc have "\<forall>k \<le> c'. ws ! k \<noteq> x" by auto
    moreover from Cons.prems Suc have "c' < length ws" by simp
    ultimately show ?thesis using Suc Cons.IH [of c'] by simp
  qed
qed

section \<open>Properties\<close>

subsection \<open>Inclusion test (C1, C9)\<close>

text \<open>The double nearest to a decimal, the rounding at a tie and in the
  subnormal range, the mean of the frame \<open>[15, ..., 15, 18]\<close> against the
  threshold \<open>0.06 * 255\<close>, and the stride for \<open>2.1 / 0.7\<close>.\<close>

lemma fl_examples:
  "fl (1 / 10) = 3602879701896397 / 36028797018963968
   \<and> fl (1 / 3) = 6004799503160661 / 18014398509481984
   \<and> fl (1 + 1 / 2 ^ 53) = 1 \<and> fl (1 + 3 / 2 ^ 53) = 1 + 1 / 2 ^ 51
   \<and> fl (fl (6 / 100) * 255) = 8613134287346073 / 562949953421312
   \<and> fl (153 / 10) = 4306567143673037 / 281474976710656
   \<and> \<lceil>fl (fl (21 / 10) / fl (7 / 10))\<rceil> = 4
   \<and> \<lceil>fl (fl 17 / fl (34 / 10))\<rceil> = 5"
  by code_simp




text \<open>C9: a slice with no nonzero pixel (and at least one pixel) never passes
  the inclusion test and raises nothing: the mean over the empty selection is
  \<open>nan\<close>, no comparison with \<open>nan\<close> holds, and the channel loop leaves the state
  as it was. This holds for any configuration, also a negative \<open>bg_lvl\<close>, for
  which the first criterion passes and the mean is evaluated.\<close>

theorem all_zero_slice_rejected:
  assumes "\<forall>x \<in> set (data slc1). x = 0" and "0 < np_size slc1"
    and "c < length (wv cf)" and "select_channel (ch_first cf) slc c = Inr slc1"
  shows "inclusion_test cf img_max slc1 = Inr False
       \<and> chan_loop cf wavedirs rsz img_max [c] slc st = (None, st)"
proof -
  from assms(1) have "filter (\<lambda>x. x \<noteq> 0) (data slc1) = []"
    by (simp add: filter_empty_conv)
  with assms(2) have "inclusion_test cf img_max slc1 = Inr False"
    by (simp add: inclusion_test_def nonzero_def np_mean_def float_gt_def)
  with assms(3,4) show ?thesis by simp
qed

theorem all_zero_slice_rejected_witness:
  "inclusion_test (sample_cfg\<lparr>bg_lvl := - 1\<rparr>) 65535
      \<lparr>dtype = UInt16, shape = [1, 2], data = [0, 0]\<rparr> = Inr False
   \<and> chan_loop (sample_cfg\<lparr>bg_lvl := - 1\<rparr>) [[''mic_dset'', ''qspim_dskwd_638nm'']]
        resize_nearest 65535 [0] \<lparr>dtype = UInt16, shape = [1, 1, 2], data = [0, 0]\<rparr>
        \<lparr>num_slc = [0], ds_size = [0], files = []\<rparr>
       = (None, \<lparr>num_slc = [0], ds_size = [0], files = []\<rparr>)"
proof -
  let ?z1 = "\<lparr>dtype = UInt16, shape = [1, 2], data = [0, 0]\<rparr>"
  have "\<forall>x \<in> set (data ?z1). x = 0" and "0 < np_size ?z1"
    and "0 < length (wv (sample_cfg\<lparr>bg_lvl := - 1\<rparr>))"
    and "select_channel (ch_first (sample_cfg\<lparr>bg_lvl := - 1\<rparr>))
           \<lparr>dtype = UInt16, shape = [1, 1, 2], data = [0, 0]\<rparr> 0 = Inr ?z1"
    by (simp_all add: np_size_def sample_cfg_def select_channel_def ndim_def take_first_def)
  from all_zero_slice_rejected [OF this] show ?thesis by blast
qed

subsection \<open>Channels without a positive wavelength (C10)\<close>

text \<open>C10: for a channel \<open>c\<close> whose wavelength entry is not strictly positive
  (the sentinel -1, 0, or any other non-positive value) the channel loop goes on
  to the next channel with the same local slice and the same state: no file is
  written and no counter changes. Over a whole run of the export cell, ended or
  raised, \<open>num_slc[c]\<close> is what the I/O cell left and \<open>ds_size[c]\<close> stays 0.\<close>

theorem nonpositive_channel_untouched:
  assumes "c < length (wv cf)" and "wv cf ! c \<le> 0"
  shows "chan_loop cf wavedirs rsz img_max (c # cs) slc st
           = chan_loop cf wavedirs rsz img_max cs slc st
       \<and> num_slc (snd (export_cell cf wavedirs rsz stack_lst nslc)) ! c = nslc ! c
       \<and> ds_size (snd (export_cell cf wavedirs rsz stack_lst nslc)) ! c = 0"
proof -
  have "chan_loop cf wavedirs rsz img_max (c # cs) slc st
          = chan_loop cf wavedirs rsz img_max cs slc st"
    using assms by simp
  moreover
  have "num_slc (snd (export_cell cf wavedirs rsz stack_lst nslc)) ! c = nslc ! c
      \<and> ds_size (snd (export_cell cf wavedirs rsz stack_lst nslc)) ! c = 0"
  proof (rule export_cell_inv [where P = "\<lambda>st. num_slc st ! c = nslc ! c \<and> ds_size st ! c = 0"])
    fix k slc and st :: curator
    assume "k < length (wv cf)" and "0 < wv cf ! k"
      and "num_slc st ! c = nslc ! c \<and> ds_size st ! c = 0"
    moreover from \<open>0 < wv cf ! k\<close> assms have "c \<noteq> k" by auto
    ultimately show
      "num_slc (snd (snd (save_slice cf wavedirs rsz k slc st))) ! c = nslc ! c
       \<and> ds_size (snd (snd (save_slice cf wavedirs rsz k slc st))) ! c = 0"
      using save_slice_frame [of c k cf wavedirs rsz slc st] by simp
  next
    show "num_slc \<lparr>num_slc = nslc, ds_size = replicate (length (wv cf)) 0, files = []\<rparr> ! c
            = nslc ! c
        \<and> ds_size \<lparr>num_slc = nslc, ds_size = replicate (length (wv cf)) 0, files = []\<rparr> ! c = 0"
      using assms by simp
  qed
  ultimately show ?thesis by simp
qed

theorem nonpositive_channel_untouched_witness:
  "chan_loop (sample_cfg\<lparr>wv := [0, 638], px_sz_z := 17\<rparr>)
       [[''mic_dset'', ''qspim_dskwd_0nm''], [''mic_dset'', ''qspim_dskwd_638nm'']]
       resize_nearest 65535 [0, 1]
       \<lparr>dtype = UInt16, shape = [2, 1, 2], data = [600, 700, 800, 900]\<rparr>
       \<lparr>num_slc = [5, 7], ds_size = [0, 0], files = []\<rparr>
     = chan_loop (sample_cfg\<lparr>wv := [0, 638], px_sz_z := 17\<rparr>)
       [[''mic_dset'', ''qspim_dskwd_0nm''], [''mic_dset'', ''qspim_dskwd_638nm'']]
       resize_nearest 65535 [1]
       \<lparr>dtype = UInt16, shape = [2, 1, 2], data = [600, 700, 800, 900]\<rparr>
       \<lparr>num_slc = [5, 7], ds_size = [0, 0], files = []\<rparr>
   \<and> num_slc (snd (export_cell (sample_cfg\<lparr>wv := [0, 638], px_sz_z := 17\<rparr>)
                   [[''mic_dset'', ''qspim_dskwd_0nm''], [''mic_dset'', ''qspim_dskwd_638nm'']]
                   resize_nearest [Inr stack_2ch_first] [5, 7])) = [5, 8]
   \<and> ds_size (snd (export_cell (sample_cfg\<lparr>wv := [0, 638], px_sz_z := 17\<rparr>)
                   [[''mic_dset'', ''qspim_dskwd_0nm''], [''mic_dset'', ''qspim_dskwd_638nm'']]
                   resize_nearest [Inr stack_2ch_first] [5, 7])) ! 0 = 0"
proof -
  let ?cf = "sample_cfg\<lparr>wv := [0, 638], px_sz_z := 17\<rparr>"
  let ?wd = "[[''mic_dset'', ''qspim_dskwd_0nm''], [''mic_dset'', ''qspim_dskwd_638nm'']]"
  let ?r = "export_cell ?cf ?wd resize_nearest [Inr stack_2ch_first] [5, 7]"
  let ?slc = "\<lparr>dtype = UInt16, shape = [2, 1, 2], data = [600, 700, 800, 900]\<rparr>"
  let ?st = "\<lparr>num_slc = [5, 7], ds_size = [0, 0], files = []\<rparr>"
  have h: "0 < length (wv ?cf)" "wv ?cf ! 0 \<le> 0"
    by (simp_all add: sample_cfg_def)
  have l: "length (num_slc (snd ?r)) = 2" and n1: "num_slc (snd ?r) ! 1 = 8"
    by code_simp+
  note w = nonpositive_channel_untouched
             [OF h, of ?wd resize_nearest 65535 "[1]" ?slc ?st "[Inr stack_2ch_first]" "[5, 7]"]
  from w have "num_slc (snd ?r) ! 0 = 5" and d: "ds_size (snd ?r) ! 0 = 0"
    by simp_all
  with l n1 have "num_slc (snd ?r) = [5, 8]"
    by (cases "num_slc (snd ?r)"; cases "tl (num_slc (snd ?r))") auto
  with d w show ?thesis by simp
qed

subsection \<open>Output path and counters (C5, C8)\<close>

text \<open>The I/O cell appends a folder to \<open>wavedirs\<close> only for a wavelength other
  than -1, and the export loop reads \<open>wavedirs[c]\<close> with the channel index: after
  a sentinel entry the folder read is that of a later wavelength, or none.\<close>

lemma wavedirs_indexed_by_channel_example:
  "fst (snd (io_cell (sample_cfg\<lparr>wv := [- 1, 488, 561], px_sz_z := 17\<rparr>) Map.empty))
     = [[''mic_dset'', ''qspim_dskwd_488nm''], [''mic_dset'', ''qspim_dskwd_561nm'']]
   \<and> map wpath (files (snd (export_cell (sample_cfg\<lparr>wv := [- 1, 488, 561], px_sz_z := 17\<rparr>)
        [[''mic_dset'', ''qspim_dskwd_488nm''], [''mic_dset'', ''qspim_dskwd_561nm'']]
        resize_nearest
        [Inr \<lparr>dtype = UInt16, shape = [1, 3, 1, 2], data = [0, 0, 600, 700, 0, 0]\<rparr>]
        [0, 0, 0])))
     = [[''mic_dset'', ''qspim_dskwd_561nm'', ''0.tiff'']]"
  by code_simp

text \<open>C5, as the code has it: a frame exported for channel \<open>c\<close>, when no
  sentinel entry stands at or before \<open>c\<close> in the wavelength list, is written
  zlib-compressed to \<open>outdir/{obj}_{wavelength}nm/{num_slc[c]}.tiff\<close>, one folder
  directly under \<open>outdir\<close> named from the objective and the wavelength; then
  \<open>num_slc[c]\<close> is incremented and the byte size of the written array is added to
  \<open>ds_size[c]\<close>.\<close>

theorem export_path_flat_folder:
  assumes "io_cell cf fs = (nslc, wavedirs, fs')"
    and "c < length (wv cf)" and "\<forall>k \<le> c. wv cf ! k \<noteq> - 1"
    and "save_slice cf wavedirs rsz c slc st = (None, slc', st')"
  shows "files st' = files st @
           [\<lparr>wpath = outdir cf @ [obj cf @ ''_'' @ str_int (wv cf ! c) @ ''nm'',
                                   str_nat (num_slc st ! c) @ ''.tiff''],
             wimage = slc', wcompression = ''zlib''\<rparr>]
       \<and> num_slc st' = (num_slc st)[c := num_slc st ! c + 1]
       \<and> ds_size st' = (ds_size st)[c := ds_size st ! c + of_nat (itemsize slc' * np_size slc')]"
proof -
  from assms(1) have wd: "wavedirs = map (wavedir_of cf) (filter (\<lambda>w. w \<noteq> - 1) (wv cf))"
    by (rule io_cell_wavedirs)
  from assms(2,3) have "filter (\<lambda>w. w \<noteq> - 1) (wv cf) ! c = wv cf ! c"
    and "c < length (filter (\<lambda>w. w \<noteq> - 1) (wv cf))"
    by (simp_all add: filter_take_all filter_take_all_length)
  with wd have dir: "wavedirs ! c = outdir cf @ [obj cf @ ''_'' @ str_int (wv cf ! c) @ ''nm'']"
    by (simp add: wavedir_of_def)
  show ?thesis
  proof (cases rule: save_slice_cases [of cf wavedirs rsz c slc st])
    case (raised e slc'')
    with assms(4) show ?thesis by simp
  next
    case (partial slc'')
    with assms(4) show ?thesis by simp
  next
    case (saved slc'')
    with assms(4) dir show ?thesis by auto
  qed
qed

theorem export_path_flat_folder_witness:
  "files (snd (snd (save_slice sample_cfg (fst (snd (io_cell sample_cfg Map.empty)))
                      resize_nearest 0 \<lparr>dtype = UInt16, shape = [1, 2], data = [600, 700]\<rparr>
                      \<lparr>num_slc = [3], ds_size = [12], files = []\<rparr>)))
     = [\<lparr>wpath = [''mic_dset'', ''qspim_dskwd_638nm'', ''3.tiff''],
         wimage = \<lparr>dtype = UInt16, shape = [1, 2], data = [600, 700]\<rparr>,
         wcompression = ''zlib''\<rparr>]
   \<and> num_slc (snd (snd (save_slice sample_cfg (fst (snd (io_cell sample_cfg Map.empty)))
                      resize_nearest 0 \<lparr>dtype = UInt16, shape = [1, 2], data = [600, 700]\<rparr>
                      \<lparr>num_slc = [3], ds_size = [12], files = []\<rparr>))) = [4]
   \<and> ds_size (snd (snd (save_slice sample_cfg (fst (snd (io_cell sample_cfg Map.empty)))
                      resize_nearest 0 \<lparr>dtype = UInt16, shape = [1, 2], data = [600, 700]\<rparr>
                      \<lparr>num_slc = [3], ds_size = [12], files = []\<rparr>))) = [16]"
proof -
  let ?a = "\<lparr>dtype = UInt16, shape = [1, 2], data = [600, 700]\<rparr>"
  let ?st = "\<lparr>num_slc = [3], ds_size = [12], files = []\<rparr>"
  let ?wd = "fst (snd (io_cell sample_cfg Map.empty))"
  obtain nslc fs' where io: "io_cell sample_cfg Map.empty = (nslc, ?wd, fs')"
    by (cases "io_cell sample_cfg Map.empty") auto
  have c: "0 < length (wv sample_cfg)" "\<forall>k \<le> 0. wv sample_cfg ! k \<noteq> - 1"
    by (simp_all add: sample_cfg_def)
  have wd: "?wd = [[''mic_dset'', ''qspim_dskwd_638nm'']]"
    by code_simp
  have "force_shape sample_cfg resize_nearest ?a = Inr ?a"
    by (simp add: force_shape_def sample_cfg_def)
  then have sv: "save_slice sample_cfg ?wd resize_nearest 0 ?a ?st
           = (None, ?a, snd (snd (save_slice sample_cfg ?wd resize_nearest 0 ?a ?st)))"
    by (simp add: save_slice_ok wd)
  have three: "str_nat 3 = ''3''" by code_simp
  have s638: "str_int 638 = ''638''" by code_simp
  from export_path_flat_folder [OF io c sv] three s638 show ?thesis
    by (simp add: sample_cfg_def itemsize_def np_size_def)
qed

text \<open>The claim C5 as stated, with the wavelength folder nested under the
  objective folder, fails on the committed configuration: the one exported
  frame goes to \<open>mic_dset/qspim_dskwd_638nm/0.tiff\<close>, not to
  \<open>mic_dset/qspim_dskwd/638/0.tiff\<close>.\<close>

theorem nested_layout_counterexample:
  "map wpath (files (snd (export_cell sample_cfg (fst (snd (io_cell sample_cfg Map.empty)))
                            resize_nearest [Inr stack_gap] (fst (io_cell sample_cfg Map.empty)))))
     = [[''mic_dset'', ''qspim_dskwd_638nm'', ''0.tiff'']]
   \<and> [''mic_dset'', ''qspim_dskwd_638nm'', ''0.tiff'']
       \<noteq> outdir sample_cfg @ [obj sample_cfg, str_int 638, str_nat 0 @ ''.tiff'']"
  by code_simp

lemma tif_count_alt:
  "tif_count = (\<lambda>names. length (filter (\<lambda>nm. lower (suffix nm) \<in> {''.tif'', ''.tiff''}) names))"
  by (simp add: tif_count_def fun_eq_iff)

text \<open>C8: the I/O cell sets \<open>num_slc[c]\<close>, for every wavelength other than the
  sentinel, to the number of entries of the wavelength's folder whose suffix,
  lower-cased, is \<open>.tif\<close> or \<open>.tiff\<close>, and to 0 when the folder did not exist.
  During the export cell no entry of \<open>num_slc\<close> ever decreases, the entries
  together grow by exactly the number of files written, and each save names its
  file \<open>{num_slc[c]}.tiff\<close> and then adds one to \<open>num_slc[c]\<close> alone. The export
  cell never assigns \<open>num_slc\<close> afresh: a run starts from the folder's count.\<close>

theorem slice_counter_resumes_and_counts:
  assumes "io_cell cf fs = (nslc, wavedirs, fs')"
  shows "(\<forall>c < length (wv cf). wv cf ! c \<noteq> - 1 \<longrightarrow>
            nslc ! c =
              (case fs (outdir cf @ [obj cf @ ''_'' @ str_int (wv cf ! c) @ ''nm'']) of
                 None \<Rightarrow> 0
               | Some names \<Rightarrow>
                   length (filter (\<lambda>nm. lower (suffix nm) \<in> {''.tif'', ''.tiff''}) names)))
       \<and> (\<forall>k < length nslc.
            nslc ! k \<le> num_slc (snd (export_cell cf wavedirs rsz stack_lst nslc)) ! k)
       \<and> sum_list (num_slc (snd (export_cell cf wavedirs rsz stack_lst nslc)))
            = sum_list nslc + length (files (snd (export_cell cf wavedirs rsz stack_lst nslc)))
       \<and> (\<forall>c slc st slc' st'.
            save_slice cf wavedirs rsz c slc st = (None, slc', st') \<longrightarrow>
              (\<exists>w. files st' = files st @ [w]
                    \<and> last (wpath w) = str_nat (num_slc st ! c) @ ''.tiff'')
              \<and> num_slc st' = (num_slc st)[c := num_slc st ! c + 1])"
proof -
  let ?r = "snd (export_cell cf wavedirs rsz stack_lst nslc)"
  have init: "\<forall>c < length (wv cf). wv cf ! c \<noteq> - 1 \<longrightarrow>
            nslc ! c =
              (case fs (outdir cf @ [obj cf @ ''_'' @ str_int (wv cf ! c) @ ''nm'']) of
                 None \<Rightarrow> 0
               | Some names \<Rightarrow>
                   length (filter (\<lambda>nm. lower (suffix nm) \<in> {''.tif'', ''.tiff''}) names))"
    using io_cell_counts [OF assms] unfolding wavedir_of_def tif_count_alt by simp
  have mono: "\<forall>k < length nslc. nslc ! k \<le> num_slc ?r ! k"
  proof (intro allI impI)
    fix k
    show "nslc ! k \<le> num_slc ?r ! k"
    proof (rule export_cell_inv [where P = "\<lambda>st. nslc ! k \<le> num_slc st ! k"])
      fix c slc and st :: curator
      assume "nslc ! k \<le> num_slc st ! k"
      with save_slice_mono [of st k cf wavedirs rsz c slc]
      show "nslc ! k \<le> num_slc (snd (snd (save_slice cf wavedirs rsz c slc st))) ! k"
        by simp
    qed simp
  qed
  have "sum_list (num_slc ?r) = sum_list nslc + length (files ?r)
      \<and> length (ds_size ?r) = length (wv cf)"
  proof (rule export_cell_inv
      [where P = "\<lambda>st. sum_list (num_slc st) = sum_list nslc + length (files st)
                        \<and> length (ds_size st) = length (wv cf)"])
    fix c slc and st :: curator
    assume "c < length (wv cf)"
      and "sum_list (num_slc st) = sum_list nslc + length (files st)
           \<and> length (ds_size st) = length (wv cf)"
    with save_slice_count [of c st cf wavedirs rsz slc]
      save_slice_lengths [of cf wavedirs rsz c slc st]
    show "sum_list (num_slc (snd (snd (save_slice cf wavedirs rsz c slc st))))
            = sum_list nslc + length (files (snd (snd (save_slice cf wavedirs rsz c slc st))))
        \<and> length (ds_size (snd (snd (save_slice cf wavedirs rsz c slc st)))) = length (wv cf)"
      by simp
  qed simp
  then have count: "sum_list (num_slc ?r) = sum_list nslc + length (files ?r)" ..
  have step: "\<forall>c slc st slc' st'.
            save_slice cf wavedirs rsz c slc st = (None, slc', st') \<longrightarrow>
              (\<exists>w. files st' = files st @ [w]
                    \<and> last (wpath w) = str_nat (num_slc st ! c) @ ''.tiff'')
              \<and> num_slc st' = (num_slc st)[c := num_slc st ! c + 1]"
  proof (intro allI impI)
    fix c slc st slc' st'
    assume sv: "save_slice cf wavedirs rsz c slc st = (None, slc', st')"
    show "(\<exists>w. files st' = files st @ [w]
                    \<and> last (wpath w) = str_nat (num_slc st ! c) @ ''.tiff'')
              \<and> num_slc st' = (num_slc st)[c := num_slc st ! c + 1]"
    proof (cases rule: save_slice_cases [of cf wavedirs rsz c slc st])
      case (raised e slc'')
      with sv show ?thesis by simp
    next
      case (partial slc'')
      with sv show ?thesis by simp
    next
      case (saved slc'')
      with sv show ?thesis by auto
    qed
  qed
  from init mono count step show ?thesis by blast
qed

theorem slice_counter_resumes_and_counts_witness:
  "fst (io_cell (sample_cfg\<lparr>px_sz_z := 17\<rparr>)
          [[''mic_dset'', ''qspim_dskwd_638nm''] \<mapsto> [''0.tiff'', ''1.TIF'', ''notes.txt'']])
     = [2]
   \<and> num_slc (snd (export_cell (sample_cfg\<lparr>px_sz_z := 17\<rparr>)
        [[''mic_dset'', ''qspim_dskwd_638nm'']] resize_nearest [Inr stack_gap] [2])) = [4]
   \<and> map (last \<circ> wpath) (files (snd (export_cell (sample_cfg\<lparr>px_sz_z := 17\<rparr>)
        [[''mic_dset'', ''qspim_dskwd_638nm'']] resize_nearest [Inr stack_gap] [2])))
       = [''2.tiff'', ''3.tiff'']"
proof -
  let ?cf = "sample_cfg\<lparr>px_sz_z := 17\<rparr>"
  let ?fs = "[[''mic_dset'', ''qspim_dskwd_638nm''] \<mapsto> [''0.tiff'', ''1.TIF'', ''notes.txt'']]"
  let ?wd = "[[''mic_dset'', ''qspim_dskwd_638nm'']]"
  let ?r = "snd (export_cell ?cf ?wd resize_nearest [Inr stack_gap] [2])"
  have s638: "str_int 638 = ''638''" by code_simp
  have "fst (snd (io_cell ?cf ?fs)) = ?wd" and l: "length (fst (io_cell ?cf ?fs)) = 1"
    by code_simp+
  then obtain nslc fs' where io: "io_cell ?cf ?fs = (nslc, ?wd, fs')"
    by (cases "io_cell ?cf ?fs") auto
  with l have len: "length nslc = 1" by simp
  have tifs: "length (filter (\<lambda>nm. lower (suffix nm) \<in> {''.tif'', ''.tiff''})
                 [''0.tiff'', ''1.TIF'', ''notes.txt'']) = 2"
    by code_simp
  have c: "0 < length (wv ?cf)" "wv ?cf ! 0 \<noteq> - 1"
    by (simp_all add: sample_cfg_def)
  have dir: "outdir ?cf @ [obj ?cf @ ''_'' @ str_int (wv ?cf ! 0) @ ''nm'']
               = [''mic_dset'', ''qspim_dskwd_638nm'']"
    by (simp add: sample_cfg_def s638)
  from slice_counter_resumes_and_counts [OF io, of resize_nearest "[Inr stack_gap]"] c
  have "nslc ! 0 =
          (case ?fs (outdir ?cf @ [obj ?cf @ ''_'' @ str_int (wv ?cf ! 0) @ ''nm'']) of
             None \<Rightarrow> 0
           | Some names \<Rightarrow>
               length (filter (\<lambda>nm. lower (suffix nm) \<in> {''.tif'', ''.tiff''}) names))"
    by blast
  also have "\<dots> = length (filter (\<lambda>nm. lower (suffix nm) \<in> {''.tif'', ''.tiff''})
                 [''0.tiff'', ''1.TIF'', ''notes.txt''])"
    unfolding dir by simp
  also note tifs
  finally have "nslc ! 0 = 2" .
  with len have "nslc = [2]" by (cases nslc) simp_all
  with io have i: "fst (io_cell ?cf ?fs) = [2]" by simp
  have "num_slc ?r = [4]" and "map (last \<circ> wpath) (files ?r) = [''2.tiff'', ''3.tiff'']"
    by code_simp+
  with i show ?thesis by simp
qed

subsection \<open>Forced output width (C7)\<close>

text \<open>C7, as the code has it: an accepted 2D slice is passed through
  \<open>resize\<close> to the shape (height, \<open>x_shp_out\<close>) exactly when \<open>x_shp_out\<close> is
  configured, whatever the slice's width; it is exported unmodified only when no
  width is configured. The file written holds the result.\<close>

theorem resize_whenever_width_configured:
  assumes "length (shape slc) = 2"
    and "c < length wavedirs" and "c < length (num_slc st)" and "c < length (ds_size st)"
  shows "\<exists>slc' st'. save_slice cf wavedirs rsz c slc st = (None, slc', st')
       \<and> wimage (last (files st')) = slc'
       \<and> slc' = (case x_shp_out cf of
                   None \<Rightarrow> slc
                 | Some w \<Rightarrow> rsz slc [shape slc ! 0, w])"
  using assms by (simp add: save_slice_ok force_shape_2d)

theorem resize_whenever_width_configured_witness:
  "wimage (last (files (snd (snd (save_slice (sample_cfg\<lparr>x_shp_out := Some 4\<rparr>)
        [[''mic_dset'', ''qspim_dskwd_638nm'']] resize_nearest 0
        \<lparr>dtype = UInt16, shape = [1, 2], data = [600, 700]\<rparr>
        \<lparr>num_slc = [0], ds_size = [0], files = []\<rparr>)))))
     = \<lparr>dtype = Float64, shape = [1, 4], data = [600, 600, 700, 700]\<rparr>
   \<and> wimage (last (files (snd (snd (save_slice sample_cfg
        [[''mic_dset'', ''qspim_dskwd_638nm'']] resize_nearest 0
        \<lparr>dtype = UInt16, shape = [1, 2], data = [600, 700]\<rparr>
        \<lparr>num_slc = [0], ds_size = [0], files = []\<rparr>)))))
     = \<lparr>dtype = UInt16, shape = [1, 2], data = [600, 700]\<rparr>"
proof -
  let ?a = "\<lparr>dtype = UInt16, shape = [1, 2], data = [600, 700]\<rparr>"
  let ?st = "\<lparr>num_slc = [0], ds_size = [0], files = []\<rparr>"
  let ?wd = "[[''mic_dset'', ''qspim_dskwd_638nm'']]"
  have h: "length (shape ?a) = 2" "0 < length ?wd" "0 < length (num_slc ?st)"
    "0 < length (ds_size ?st)"
    by simp_all
  have r: "resize_nearest ?a [1, 4] = \<lparr>dtype = Float64, shape = [1, 4], data = [600, 600, 700, 700]\<rparr>"
    by code_simp
  from resize_whenever_width_configured [OF h, of "sample_cfg\<lparr>x_shp_out := Some 4\<rparr>" resize_nearest]
    resize_whenever_width_configured [OF h, of sample_cfg resize_nearest] r
  show ?thesis by (auto simp add: sample_cfg_def)
qed

text \<open>The claim C7 as stated fails when the configured width equals the
  slice's width: the slice still goes through \<open>resize\<close>, so the file holds the
  resized float64 array, not the 16-bit slice, and 8 bytes a pixel are added to
  \<open>ds_size\<close>.\<close>

theorem same_width_still_resized_counterexample:
  "wimage (last (files (snd (snd (save_slice (sample_cfg\<lparr>x_shp_out := Some 2\<rparr>)
        [[''mic_dset'', ''qspim_dskwd_638nm'']] resize_nearest 0
        \<lparr>dtype = UInt16, shape = [1, 2], data = [600, 700]\<rparr>
        \<lparr>num_slc = [0], ds_size = [0], files = []\<rparr>)))))
     = resize_nearest \<lparr>dtype = UInt16, shape = [1, 2], data = [600, 700]\<rparr> [1, 2]
   \<and> resize_nearest \<lparr>dtype = UInt16, shape = [1, 2], data = [600, 700]\<rparr> [1, 2]
       \<noteq> \<lparr>dtype = UInt16, shape = [1, 2], data = [600, 700]\<rparr>
   \<and> ds_size (snd (snd (save_slice (sample_cfg\<lparr>x_shp_out := Some 2\<rparr>)
        [[''mic_dset'', ''qspim_dskwd_638nm'']] resize_nearest 0
        \<lparr>dtype = UInt16, shape = [1, 2], data = [600, 700]\<rparr>
        \<lparr>num_slc = [0], ds_size = [0], files = []\<rparr>))) = [16]"
  by code_simp

subsection \<open>Unreadable stacks (C6)\<close>

lemma export_cell_append:
  "export_cell cf wavedirs rsz (pre @ post) nslc =
     (case export_cell cf wavedirs rsz pre nslc of
        (Some e, st') \<Rightarrow> (Some e, st')
      | (None, st') \<Rightarrow>
          stack_loop cf wavedirs rsz \<lceil>fl (fl (z_strd_um cf) / fl (px_sz_z cf))\<rceil> post st')"
  by (simp add: export_cell_def stack_loop_append)

text \<open>C6, as the code has it: the stack loop has no handler, so a stack that
  \<open>tiff.imread\<close> cannot read ends the run with its exception. The stacks before
  it have been processed and their files and counters stay; the stacks after it
  are never read.\<close>

theorem unreadable_stack_aborts_run:
  "export_cell cf wavedirs rsz (pre @ Inl e # post) nslc =
     (case export_cell cf wavedirs rsz pre nslc of
        (Some e', st') \<Rightarrow> (Some e', st')
      | (None, st') \<Rightarrow> (Some e, st'))"
  by (simp add: export_cell_append split: prod.splits option.splits)

theorem unreadable_stack_aborts_run_witness:
  "export_cell (sample_cfg\<lparr>px_sz_z := 17\<rparr>) [[''mic_dset'', ''qspim_dskwd_638nm'']]
       resize_nearest [Inr stack_gap, Inl ReadError, Inr stack_bright] [0]
     = (Some ReadError,
        snd (export_cell (sample_cfg\<lparr>px_sz_z := 17\<rparr>) [[''mic_dset'', ''qspim_dskwd_638nm'']]
               resize_nearest [Inr stack_gap] [0]))
   \<and> num_slc (snd (export_cell (sample_cfg\<lparr>px_sz_z := 17\<rparr>)
                      [[''mic_dset'', ''qspim_dskwd_638nm'']]
                      resize_nearest [Inr stack_gap] [0])) = [2]"
proof -
  let ?cf = "sample_cfg\<lparr>px_sz_z := 17\<rparr>"
  let ?wd = "[[''mic_dset'', ''qspim_dskwd_638nm'']]"
  have "fst (export_cell ?cf ?wd resize_nearest [Inr stack_gap] [0]) = None"
    and "num_slc (snd (export_cell ?cf ?wd resize_nearest [Inr stack_gap] [0])) = [2]"
    by code_simp+
  with unreadable_stack_aborts_run
         [of ?cf ?wd resize_nearest "[Inr stack_gap]" ReadError "[Inr stack_bright]" "[0]"]
  show ?thesis
    by (cases "export_cell ?cf ?wd resize_nearest [Inr stack_gap] [0]") simp
qed

text \<open>The claim C6 as stated fails: with an unreadable file first in the list
  the run raises with nothing exported, although the readable stack after it
  holds two frames that pass the inclusion test.\<close>

theorem bad_stack_not_skipped_counterexample:
  "export_cell (sample_cfg\<lparr>px_sz_z := 17\<rparr>) [[''mic_dset'', ''qspim_dskwd_638nm'']]
       resize_nearest [Inl ReadError, Inr stack_gap] [0]
     = (Some ReadError, \<lparr>num_slc = [0], ds_size = [0], files = []\<rparr>)
   \<and> fst (export_cell (sample_cfg\<lparr>px_sz_z := 17\<rparr>) [[''mic_dset'', ''qspim_dskwd_638nm'']]
            resize_nearest [Inr stack_gap] [0]) = None
   \<and> num_slc (snd (export_cell (sample_cfg\<lparr>px_sz_z := 17\<rparr>)
                      [[''mic_dset'', ''qspim_dskwd_638nm'']]
                      resize_nearest [Inr stack_gap] [0])) = [2]"
  by code_simp

subsection \<open>Size budget (C2)\<close>

text \<open>C2 does not hold of the code. The check compares the boolean
  \<open>np.all(ds_size)\<close> with the budget, so it never fires for a budget above 1
  (lemma \<open>max_size_never_reached\<close>). With a budget of 4 bytes and three bright
  frames of 4 bytes each, all three are exported: 12 bytes, the budget exceeded
  by two frames.\<close>

theorem budget_check_never_stops_export:
  "export_cell (sample_cfg\<lparr>max_dset_size := 4, px_sz_z := 17\<rparr>)
       [[''mic_dset'', ''qspim_dskwd_638nm'']] resize_nearest [Inr stack_bright] [0]
     = (None,
        \<lparr>num_slc = [3], ds_size = [12],
         files =
           [\<lparr>wpath = [''mic_dset'', ''qspim_dskwd_638nm'', ''0.tiff''],
             wimage = \<lparr>dtype = UInt16, shape = [1, 2], data = [600, 700]\<rparr>,
             wcompression = ''zlib''\<rparr>,
            \<lparr>wpath = [''mic_dset'', ''qspim_dskwd_638nm'', ''1.tiff''],
             wimage = \<lparr>dtype = UInt16, shape = [1, 2], data = [800, 900]\<rparr>,
             wcompression = ''zlib''\<rparr>,
            \<lparr>wpath = [''mic_dset'', ''qspim_dskwd_638nm'', ''2.tiff''],
             wimage = \<lparr>dtype = UInt16, shape = [1, 2], data = [1000, 1100]\<rparr>,
             wcompression = ''zlib''\<rparr>]\<rparr>)"
  by code_simp

subsection \<open>Channel planes (C4)\<close>

text \<open>C4 does not hold of the code. The channel loop overwrites the local
  \<open>slc\<close> with the plane it selects, so the second channel of positive
  wavelength indexes the first one's 2D plane: channel first, three indices on a
  2D array raise \<open>IndexError\<close> and channel 1 is never exported; channel last, the
  frame tested and exported for channel 1 is column 1 of channel 0's plane
  (\<open>[800]\<close>), while channel 1's own plane is \<open>[700, 900]\<close>.\<close>

theorem second_channel_reads_first_plane:
  "export_cell (sample_cfg\<lparr>wv := [488, 561], px_sz_z := 17\<rparr>)
       [[''mic_dset'', ''qspim_dskwd_488nm''], [''mic_dset'', ''qspim_dskwd_561nm'']]
       resize_nearest [Inr stack_2ch_first] [0, 0]
     = (Some IndexError,
        \<lparr>num_slc = [1, 0], ds_size = [4, 0],
         files =
           [\<lparr>wpath = [''mic_dset'', ''qspim_dskwd_488nm'', ''0.tiff''],
             wimage = \<lparr>dtype = UInt16, shape = [1, 2], data = [600, 700]\<rparr>,
             wcompression = ''zlib''\<rparr>]\<rparr>)
   \<and> export_cell (sample_cfg\<lparr>wv := [488, 561], ch_first := False, px_sz_z := 17\<rparr>)
       [[''mic_dset'', ''qspim_dskwd_488nm''], [''mic_dset'', ''qspim_dskwd_561nm'']]
       resize_nearest [Inr stack_2ch_last] [0, 0]
     = (None,
        \<lparr>num_slc = [1, 1], ds_size = [4, 2],
         files =
           [\<lparr>wpath = [''mic_dset'', ''qspim_dskwd_488nm'', ''0.tiff''],
             wimage = \<lparr>dtype = UInt16, shape = [1, 2], data = [600, 800]\<rparr>,
             wcompression = ''zlib''\<rparr>,
            \<lparr>wpath = [''mic_dset'', ''qspim_dskwd_561nm'', ''0.tiff''],
             wimage = \<lparr>dtype = UInt16, shape = [1], data = [800]\<rparr>,
             wcompression = ''zlib''\<rparr>]\<rparr>)
   \<and> select_channel False
         \<lparr>dtype = UInt16, shape = [1, 2, 2], data = [600, 700, 800, 900]\<rparr> 1
     = Inr \<lparr>dtype = UInt16, shape = [1, 2], data = [700, 900]\<rparr>"
  by code_simp

subsection \<open>Zero-Light-Preserved correction (C3)\<close>

text \<open>C3: Zero-Light-Preserved correction computes, at every pixel of the
  frame, \<open>(x - z) * (s / v)\<close> with \<open>s\<close> the mean of the flat-field over the
  field, and a pixel equal to its dark-field value is mapped to exactly 0. The
  quotient \<open>s / v\<close> is defined where the flat-field is not 0, which the
  statement assumes of the pixel.\<close>

theorem zlp_pixelwise_and_zero:
  assumes "i < length xs" and "length vs = length xs" and "length zs = length xs"
    and "vs ! i \<noteq> 0"
  shows "correct_zlp xs vs zs ! i = (xs ! i - zs ! i) * (sum_list vs / of_nat (length vs) / vs ! i)
       \<and> (xs ! i = zs ! i \<longrightarrow> correct_zlp xs vs zs ! i = 0)"
  using assms by (simp add: correct_zlp_def zero_light_preserved_def field_mean_def)

theorem zlp_pixelwise_and_zero_witness:
  "correct_zlp [100, 130] [2, 4] [100, 10] ! 0 = 0
   \<and> correct_zlp [100, 130] [2, 4] [100, 10] ! 1 = 90"
  using zlp_pixelwise_and_zero [of 0 "[100, 130]" "[2, 4]" "[100, 10]"]
    zlp_pixelwise_and_zero [of 1 "[100, 130]" "[2, 4]" "[100, 10]"]
  by simp

end
